theory Spec2Isabelle
  imports Main "HOL-Library.Sublist"
begin

section \<open>The file-system bridge of \<^verbatim>\<open>bridge/io.go\<close>\<close>

text \<open>
  The bridge exposes file operations that all return a \<^verbatim>\<open>FlagResult\<close>. This theory embeds
  the operations of \<^verbatim>\<open>io.go\<close> as functions that take the state of the file system and
  return the new state together with the result. Go strings and byte slices are both
  sequences of bytes, so both are \<^typ>\<open>string\<close> here and the conversions
  \<^verbatim>\<open>[]byte(s)\<close> and \<^verbatim>\<open>string(b)\<close> are the identity. Calls to \<^verbatim>\<open>log.Printf\<close> only
  write to the log and are left out.

  \<^verbatim>\<open>FlagResult\<close>, \<^verbatim>\<open>IOOptions\<close> and \<^verbatim>\<open>GetPath\<close> are declared in other files of the
  package. The two structs are records with the fields \<^verbatim>\<open>io.go\<close> uses, and every
  operation takes \<^verbatim>\<open>GetPath\<close> as its first argument.
\<close>

subsection \<open>Results and options\<close>

record FlagResult =
  Flag :: bool
  Data :: string

record IOOptions =
  Mode :: string

definition Binary :: string where
  "Binary = ''Binary''"

definition Text :: string where
  "Text = ''Text''"

subsection \<open>Standard base64 (\<^verbatim>\<open>base64.StdEncoding\<close>)\<close>

text \<open>
  The encoder maps three bytes to four characters of the standard alphabet and pads the
  last group with \<^verbatim>\<open>=\<close>. The decoder follows \<^verbatim>\<open>decodeQuantum\<close>: it collects four
  six-bit values per quantum, skips carriage returns and line feeds, requires padding, and
  reports the offset of the first offending byte. The word-at-a-time fast path of the
  library decodes the same quanta and is not modelled separately. \<^verbatim>\<open>DecodeString\<close> also
  returns the bytes decoded before an error; \<^verbatim>\<open>Writefile\<close> discards them, and so does
  the model.
\<close>

definition encodeStd :: string where
  "encodeStd = ''ABCDEFGHIJKLMNOPQRSTUVWXYZabcdefghijklmnopqrstuvwxyz0123456789+/''"

fun index_of :: "'a \<Rightarrow> 'a list \<Rightarrow> nat option" where
  "index_of x [] = None"
| "index_of x (y # ys) = (if x = y then Some 0 else map_option Suc (index_of x ys))"

definition decodeMap :: "char \<Rightarrow> nat option" where
  "decodeMap c = index_of c encodeStd"

definition sextet :: "nat \<Rightarrow> char" where
  "sextet v = encodeStd ! (v mod 64)"

fun EncodeToString :: "string \<Rightarrow> string" where
  "EncodeToString (a # b # c # rest) =
     (let val = of_char a * 65536 + of_char b * 256 + of_char c
      in [sextet (val div 262144), sextet (val div 4096), sextet (val div 64), sextet val]
           @ EncodeToString rest)"
| "EncodeToString [a, b] =
     (let val = of_char a * 65536 + of_char b * 256
      in [sextet (val div 262144), sextet (val div 4096), sextet (val div 64), CHR ''=''])"
| "EncodeToString [a] =
     (let val = of_char a * 65536
      in [sextet (val div 262144), sextet (val div 4096), CHR ''='', CHR ''=''])"
| "EncodeToString [] = []"

datatype CorruptInputError = CorruptInputError nat

fun Itoa :: "nat \<Rightarrow> string" where
  "Itoa n = (if n < 10 then [char_of (48 + n)] else Itoa (n div 10) @ [char_of (48 + n mod 10)])"

declare Itoa.simps [simp del]

fun CorruptInputError_Error :: "CorruptInputError \<Rightarrow> string" where
  "CorruptInputError_Error (CorruptInputError n) = ''illegal base64 data at input byte '' @ Itoa n"

definition assemble :: "nat \<Rightarrow> nat \<Rightarrow> nat \<Rightarrow> nat \<Rightarrow> string" where
  "assemble d0 d1 d2 d3 =
     (let val = d0 * 262144 + d1 * 4096 + d2 * 64 + d3
      in [char_of (val div 65536), char_of (val div 256), char_of val])"

fun quantum_bytes :: "nat list \<Rightarrow> string" where
  "quantum_bytes [d0, d1, d2, d3] = assemble d0 d1 d2 d3"
| "quantum_bytes [d0, d1, d2] = take 2 (assemble d0 d1 d2 0)"
| "quantum_bytes [d0, d1] = take 1 (assemble d0 d1 0 0)"
| "quantum_bytes _ = []"

fun skip_newlines :: "nat \<Rightarrow> string \<Rightarrow> nat \<times> string" where
  "skip_newlines si [] = (si, [])"
| "skip_newlines si (c # src) =
     (if c = CHR 0x0A \<or> c = CHR 0x0D then skip_newlines (Suc si) src else (si, c # src))"

definition finish_padded :: "nat list \<Rightarrow> nat \<Rightarrow> string \<Rightarrow> CorruptInputError + string" where
  "finish_padded dbuf si src =
     (case skip_newlines si src of
        (si', []) \<Rightarrow> Inr (quantum_bytes dbuf)
      | (si', _ # _) \<Rightarrow> Inl (CorruptInputError si'))"

text \<open>
  \<open>Decode dbuf si src\<close> is the decoding loop at input offset \<open>si\<close> with the six-bit values
  \<open>dbuf\<close> of the current quantum already read and \<open>src\<close> still to read.
\<close>

fun Decode :: "nat list \<Rightarrow> nat \<Rightarrow> string \<Rightarrow> CorruptInputError + string" where
  "Decode dbuf si [] =
     (if dbuf = [] then Inr [] else Inl (CorruptInputError (si - length dbuf)))"
| "Decode dbuf si (c # src) =
     (case decodeMap c of
        Some out \<Rightarrow>
          if length dbuf = 3
          then (case Decode [] (Suc si) src of
                  Inl e \<Rightarrow> Inl e
                | Inr bs \<Rightarrow> Inr (quantum_bytes (dbuf @ [out]) @ bs))
          else Decode (dbuf @ [out]) (Suc si) src
      | None \<Rightarrow>
          if c = CHR 0x0A \<or> c = CHR 0x0D then Decode dbuf (Suc si) src
          else if c \<noteq> CHR ''='' then Inl (CorruptInputError si)
          else if length dbuf < 2 then Inl (CorruptInputError si)
          else if length dbuf = 2
          then (case skip_newlines (Suc si) src of
                  (si', []) \<Rightarrow> Inl (CorruptInputError si')
                | (si', c' # rest) \<Rightarrow>
                    if c' \<noteq> CHR ''='' then Inl (CorruptInputError (si' - 1))
                    else finish_padded dbuf (Suc si') rest)
          else finish_padded dbuf (Suc si) src)"

definition DecodeString :: "string \<Rightarrow> CorruptInputError + string" where
  "DecodeString s = Decode [] 0 s"

subsection \<open>Lexical paths (\<^verbatim>\<open>path/filepath\<close> and \<^verbatim>\<open>strings.HasPrefix\<close>)\<close>

text \<open>
  Paths are Unix paths with the separator \<^verbatim>\<open>/\<close>. \<open>Clean\<close> applies the documented rules
  of \<^verbatim>\<open>filepath.Clean\<close> to the elements of the path: empty elements and \<^verbatim>\<open>.\<close> are
  dropped, \<^verbatim>\<open>..\<close> removes the element before it, is dropped at the root, and is kept at
  the start of a relative path. \<open>clean_key\<close> is the list of elements of the cleaned path.
  \<open>Join\<close> joins from the first non-empty element on and cleans the result; \<open>Dir\<close>
  cleans the path up to and including its last separator.
\<close>

fun split_sep :: "string \<Rightarrow> string list" where
  "split_sep [] = [[]]"
| "split_sep (c # cs) =
     (if c = CHR ''/'' then [] # split_sep cs
      else (case split_sep cs of
              [] \<Rightarrow> [[c]]
            | e # es \<Rightarrow> (c # e) # es))"

fun join_sep :: "string list \<Rightarrow> string" where
  "join_sep [] = []"
| "join_sep [e] = e"
| "join_sep (e # e' # es) = e @ CHR ''/'' # join_sep (e' # es)"

definition rooted :: "string \<Rightarrow> bool" where
  "rooted path = (case path of [] \<Rightarrow> False | c # _ \<Rightarrow> c = CHR ''/'')"

fun clean_elems :: "bool \<Rightarrow> string list \<Rightarrow> string list \<Rightarrow> string list" where
  "clean_elems r out [] = out"
| "clean_elems r out (e # es) =
     (if e = [] \<or> e = ''.'' then clean_elems r out es
      else if e = ''..'' then
        (if out \<noteq> [] \<and> last out \<noteq> ''..'' then clean_elems r (butlast out) es
         else if r then clean_elems r out es
         else clean_elems r (out @ [''..'']) es)
      else clean_elems r (out @ [e]) es)"

definition clean_key :: "string \<Rightarrow> string list" where
  "clean_key path = clean_elems (rooted path) [] (split_sep path)"

definition Clean :: "string \<Rightarrow> string" where
  "Clean path =
     (if path = [] then ''.''
      else if rooted path then CHR ''/'' # join_sep (clean_key path)
      else if clean_key path = [] then ''.''
      else join_sep (clean_key path))"

fun Join :: "string list \<Rightarrow> string" where
  "Join [] = []"
| "Join (e # es) = (if e \<noteq> [] then Clean (join_sep (e # es)) else Join es)"

definition Dir :: "string \<Rightarrow> string" where
  "Dir path = Clean (rev (dropWhile (\<lambda>c. c \<noteq> CHR ''/'') (rev path)))"

definition HasPrefix :: "string \<Rightarrow> string \<Rightarrow> bool" where
  "HasPrefix s pre = (length pre \<le> length s \<and> take (length pre) s = pre)"

definition PathSeparator :: char where
  "PathSeparator = CHR ''/''"

subsection \<open>The file system (\<^verbatim>\<open>os\<close>)\<close>

text \<open>
  The file system is a tree of regular files and directories, addressed by the list of
  element names from the root, together with the working directory of the process. A path
  is resolved element by element as the kernel does it: every directory passed through
  must exist, and \<^verbatim>\<open>..\<close> moves to the parent. Symbolic links, access permissions and
  device errors are outside the model, so the errors that arise are a missing file, a file
  where a directory is needed, a directory where a file is needed, and the two special
  cases of \<^verbatim>\<open>RemoveAll\<close>. An operation that fails part-way returns the state it has
  reached.

  An error value is a \<^verbatim>\<open>*PathError\<close> with the operation, the path and the cause; the
  path reported is the one the caller passed.
\<close>

datatype errno = ENOENT | ENOTDIR | EISDIR | EINVAL | EBUSY

fun errno_Error :: "errno \<Rightarrow> string" where
  "errno_Error ENOENT = ''no such file or directory''"
| "errno_Error ENOTDIR = ''not a directory''"
| "errno_Error EISDIR = ''is a directory''"
| "errno_Error EINVAL = ''invalid argument''"
| "errno_Error EBUSY = ''device or resource busy''"

datatype PathError = PathError string string errno

fun Error :: "PathError \<Rightarrow> string" where
  "Error (PathError op path e) = op @ '' '' @ path @ '': '' @ errno_Error e"

fun IsNotExist :: "PathError \<Rightarrow> bool" where
  "IsNotExist (PathError op path e) = (e = ENOENT)"

datatype node = RegularFile string | Directory

record filesys =
  nodes :: "string list \<Rightarrow> node option"
  cwd :: "string list"

fun walk :: "filesys \<Rightarrow> string list \<Rightarrow> string list \<Rightarrow> errno + string list" where
  "walk w cur [] = Inr cur"
| "walk w cur (e # es) =
     (case nodes w cur of
        None \<Rightarrow> Inl ENOENT
      | Some (RegularFile _) \<Rightarrow> Inl ENOTDIR
      | Some Directory \<Rightarrow>
          if e = [] \<or> e = ''.'' then walk w cur es
          else if e = ''..'' then walk w (butlast cur) es
          else walk w (cur @ [e]) es)"

definition start :: "filesys \<Rightarrow> string \<Rightarrow> string list" where
  "start w path = (if rooted path then [] else cwd w)"

definition locate :: "filesys \<Rightarrow> string \<Rightarrow> errno + string list" where
  "locate w path = (if path = [] then Inl ENOENT else walk w (start w path) (split_sep path))"

definition os_Stat :: "filesys \<Rightarrow> string \<Rightarrow> PathError + node" where
  "os_Stat w name =
     (case locate w name of
        Inl e \<Rightarrow> Inl (PathError ''stat'' name e)
      | Inr k \<Rightarrow>
          (case nodes w k of
             None \<Rightarrow> Inl (PathError ''stat'' name ENOENT)
           | Some n \<Rightarrow> Inr n))"

text \<open>\<open>os_Open\<close> opens for reading and returns the node opened; a directory can be opened.\<close>

definition os_Open :: "filesys \<Rightarrow> string \<Rightarrow> PathError + string list" where
  "os_Open w name =
     (case locate w name of
        Inl e \<Rightarrow> Inl (PathError ''open'' name e)
      | Inr k \<Rightarrow>
          (case nodes w k of
             None \<Rightarrow> Inl (PathError ''open'' name ENOENT)
           | Some n \<Rightarrow> Inr k))"

definition read_all :: "filesys \<Rightarrow> string list \<Rightarrow> string \<Rightarrow> PathError + string" where
  "read_all w k name =
     (case nodes w k of
        Some (RegularFile bs) \<Rightarrow> Inr bs
      | _ \<Rightarrow> Inl (PathError ''read'' name EISDIR))"

definition os_ReadFile :: "filesys \<Rightarrow> string \<Rightarrow> PathError + string" where
  "os_ReadFile w name =
     (case os_Open w name of
        Inl e \<Rightarrow> Inl e
      | Inr k \<Rightarrow> read_all w k name)"

text \<open>
  \<open>os_Create\<close> is \<^verbatim>\<open>OpenFile\<close> with \<^verbatim>\<open>O_WRONLY|O_CREATE|O_TRUNC\<close>, which is what
  \<^verbatim>\<open>os.Create\<close> and \<^verbatim>\<open>os.WriteFile\<close> use: the file exists and is empty afterwards.
  \<open>write_file\<close> writes to the file just opened, from its start.
\<close>

definition os_Create :: "filesys \<Rightarrow> string \<Rightarrow> PathError + filesys \<times> string list" where
  "os_Create w name =
     (case locate w name of
        Inl e \<Rightarrow> Inl (PathError ''open'' name e)
      | Inr k \<Rightarrow>
          if nodes w k = Some Directory then Inl (PathError ''open'' name EISDIR)
          else if k = [] \<or> nodes w (butlast k) \<noteq> Some Directory
          then Inl (PathError ''open'' name ENOENT)
          else Inr (w\<lparr>nodes := (nodes w)(k \<mapsto> RegularFile [])\<rparr>, k))"

definition write_file :: "filesys \<Rightarrow> string list \<Rightarrow> string \<Rightarrow> filesys" where
  "write_file w k bs = w\<lparr>nodes := (nodes w)(k \<mapsto> RegularFile bs)\<rparr>"

definition os_WriteFile :: "filesys \<Rightarrow> string \<Rightarrow> string \<Rightarrow> filesys \<times> PathError option" where
  "os_WriteFile w name data =
     (case os_Create w name of
        Inl e \<Rightarrow> (w, Some e)
      | Inr (w', k) \<Rightarrow> (write_file w' k data, None))"

text \<open>
  \<^verbatim>\<open>MkdirAll\<close> creates the directory and every missing parent, from the top down, and
  succeeds when the directory already exists.
\<close>

fun mkdir_elems :: "filesys \<Rightarrow> string list \<Rightarrow> string list \<Rightarrow> filesys \<times> errno option" where
  "mkdir_elems w cur [] =
     (case nodes w cur of
        None \<Rightarrow> (w, Some ENOENT)
      | Some (RegularFile _) \<Rightarrow> (w, Some ENOTDIR)
      | Some Directory \<Rightarrow> (w, None))"
| "mkdir_elems w cur (e # es) =
     (case nodes w cur of
        None \<Rightarrow> (w, Some ENOENT)
      | Some (RegularFile _) \<Rightarrow> (w, Some ENOTDIR)
      | Some Directory \<Rightarrow>
          if e = [] \<or> e = ''.'' then mkdir_elems w cur es
          else if e = ''..'' then mkdir_elems w (butlast cur) es
          else if nodes w (cur @ [e]) = None
          then mkdir_elems (w\<lparr>nodes := (nodes w)(cur @ [e] \<mapsto> Directory)\<rparr>) (cur @ [e]) es
          else mkdir_elems w (cur @ [e]) es)"

definition os_MkdirAll :: "filesys \<Rightarrow> string \<Rightarrow> filesys \<times> PathError option" where
  "os_MkdirAll w path =
     (if path = [] then (w, Some (PathError ''mkdir'' path ENOENT))
      else case mkdir_elems w (start w path) (split_sep path) of
             (w', None) \<Rightarrow> (w', None)
           | (w', Some e) \<Rightarrow> (w', Some (PathError ''mkdir'' path e)))"

text \<open>
  \<^verbatim>\<open>RemoveAll\<close> removes the path and everything below it. It returns no error for the
  empty path and for a path that does not exist, and refuses a path whose last element is
  \<^verbatim>\<open>.\<close>. The root directory itself cannot be removed.
\<close>

definition endsWithDot :: "string \<Rightarrow> bool" where
  "endsWithDot path =
     (path = ''.'' \<or>
      (2 \<le> length path \<and> path ! (length path - 1) = CHR ''.''
         \<and> path ! (length path - 2) = CHR ''/''))"

definition remove_tree :: "filesys \<Rightarrow> string list \<Rightarrow> filesys" where
  "remove_tree w k = w\<lparr>nodes := (\<lambda>k'. if prefix k k' then None else nodes w k')\<rparr>"

definition os_RemoveAll :: "filesys \<Rightarrow> string \<Rightarrow> filesys \<times> PathError option" where
  "os_RemoveAll w path =
     (if path = [] then (w, None)
      else if endsWithDot path then (w, Some (PathError ''RemoveAll'' path EINVAL))
      else case locate w path of
             Inl e \<Rightarrow> if e = ENOENT then (w, None) else (w, Some (PathError ''unlinkat'' path e))
           | Inr k \<Rightarrow>
               if nodes w k = None then (w, None)
               else if k = []
               then (w\<lparr>nodes := (\<lambda>k'. if k' = [] then nodes w k' else None)\<rparr>,
                     Some (PathError ''unlinkat'' path EBUSY))
               else (remove_tree w k, None))"

subsection \<open>Archives (\<^verbatim>\<open>archive/zip\<close> and \<^verbatim>\<open>compress/gzip\<close>)\<close>

text \<open>
  The two container formats are decoded by the standard library. The parser of the ZIP
  directory and the GZip decoder are arguments of the operations that use them, each a
  function of the bytes of the file. An entry of a ZIP archive carries its name, whether
  its mode marks a directory, and the outcome of opening its data and reading it to the
  end: an error of \<^verbatim>\<open>Open\<close>, or the bytes read and the error that ended the reading,
  if any. A GZip decoder returns the error of \<^verbatim>\<open>gzip.NewReader\<close>, or the bytes that
  reading delivers and the error that ended it, if any. The mode bits of an entry have no
  counterpart in the file system above.
\<close>

record zip_File =
  Name :: string
  IsDir :: bool
  Stream :: "string + string \<times> string option"

type_synonym zip_parser = "string \<Rightarrow> string + zip_File list"

type_synonym gzip_decoder = "string \<Rightarrow> string + string \<times> string option"

definition zip_OpenReader :: "zip_parser \<Rightarrow> filesys \<Rightarrow> string \<Rightarrow> string + zip_File list" where
  "zip_OpenReader parse w name =
     (case os_ReadFile w name of
        Inl e \<Rightarrow> Inl (Error e)
      | Inr bs \<Rightarrow> parse bs)"

definition gzip_NewReader ::
    "gzip_decoder \<Rightarrow> filesys \<Rightarrow> string list \<Rightarrow> string \<Rightarrow> string + string \<times> string option" where
  "gzip_NewReader gunzip w k name =
     (case read_all w k name of
        Inl e \<Rightarrow> Inl (Error e)
      | Inr bs \<Rightarrow> gunzip bs)"

subsection \<open>The operations of \<^verbatim>\<open>io.go\<close>\<close>

definition Writefile ::
    "(string \<Rightarrow> string) \<Rightarrow> filesys \<Rightarrow> string \<Rightarrow> string \<Rightarrow> IOOptions \<Rightarrow> filesys \<times> FlagResult" where
  "Writefile GetPath w path content options =
     (let path = GetPath path in
      case os_MkdirAll w (Dir path) of
        (w1, Some err) \<Rightarrow> (w1, \<lparr>Flag = False, Data = Error err\<rparr>)
      | (w1, None) \<Rightarrow>
          (case (if Mode options = Text then Inr content
                 else if Mode options = Binary then DecodeString content
                 else Inr [])
           of
             Inl err \<Rightarrow> (w1, \<lparr>Flag = False, Data = CorruptInputError_Error err\<rparr>)
           | Inr b \<Rightarrow>
               (case os_WriteFile w1 path b of
                  (w2, Some err) \<Rightarrow> (w2, \<lparr>Flag = False, Data = Error err\<rparr>)
                | (w2, None) \<Rightarrow> (w2, \<lparr>Flag = True, Data = ''Success''\<rparr>))))"

definition Readfile ::
    "(string \<Rightarrow> string) \<Rightarrow> filesys \<Rightarrow> string \<Rightarrow> IOOptions \<Rightarrow> filesys \<times> FlagResult" where
  "Readfile GetPath w path options =
     (let path = GetPath path in
      case os_ReadFile w path of
        Inl err \<Rightarrow> (w, \<lparr>Flag = False, Data = Error err\<rparr>)
      | Inr b \<Rightarrow>
          (w, \<lparr>Flag = True,
               Data = (if Mode options = Text then b
                       else if Mode options = Binary then EncodeToString b
                       else [])\<rparr>))"

definition Removefile :: "(string \<Rightarrow> string) \<Rightarrow> filesys \<Rightarrow> string \<Rightarrow> filesys \<times> FlagResult" where
  "Removefile GetPath w path =
     (let path = GetPath path in
      case os_RemoveAll w path of
        (w1, Some err) \<Rightarrow> (w1, \<lparr>Flag = False, Data = Error err\<rparr>)
      | (w1, None) \<Rightarrow> (w1, \<lparr>Flag = True, Data = ''Success''\<rparr>))"

text \<open>
  \<open>extract_file\<close> is the body of the loop of \<^verbatim>\<open>UnzipZIPFile\<close> for one entry of the
  archive: it returns the result with which the operation returns, or nothing when the
  loop goes on to the next entry. The result of \<^verbatim>\<open>MkdirAll\<close> for a directory entry is
  not looked at. \<open>extract_files\<close> is the loop with the return after it.
\<close>

definition extract_file :: "string \<Rightarrow> zip_File \<Rightarrow> filesys \<Rightarrow> filesys \<times> FlagResult option" where
  "extract_file output f w =
     (let filePath = Join [output, Name f] in
      if \<not> HasPrefix filePath (Clean output @ [PathSeparator])
      then (w, Some \<lparr>Flag = False, Data = ''invalid file path''\<rparr>)
      else if IsDir f then (fst (os_MkdirAll w filePath), None)
      else
        case os_MkdirAll w (Dir filePath) of
          (w1, Some err) \<Rightarrow> (w1, Some \<lparr>Flag = False, Data = Error err\<rparr>)
        | (w1, None) \<Rightarrow>
            (case os_Create w1 filePath of
               Inl err \<Rightarrow> (w1, Some \<lparr>Flag = False, Data = Error err\<rparr>)
             | Inr (w2, dstFile) \<Rightarrow>
                 (case Stream f of
                    Inl msg \<Rightarrow> (w2, Some \<lparr>Flag = False, Data = msg\<rparr>)
                  | Inr (bs, None) \<Rightarrow> (write_file w2 dstFile bs, None)
                  | Inr (bs, Some msg) \<Rightarrow>
                      (write_file w2 dstFile bs, Some \<lparr>Flag = False, Data = msg\<rparr>))))"

fun extract_files :: "string \<Rightarrow> zip_File list \<Rightarrow> filesys \<Rightarrow> filesys \<times> FlagResult" where
  "extract_files output [] w = (w, \<lparr>Flag = True, Data = ''Success''\<rparr>)"
| "extract_files output (f # fs) w =
     (case extract_file output f w of
        (w1, Some r) \<Rightarrow> (w1, r)
      | (w1, None) \<Rightarrow> extract_files output fs w1)"

definition UnzipZIPFile ::
    "(string \<Rightarrow> string) \<Rightarrow> zip_parser \<Rightarrow> filesys \<Rightarrow> string \<Rightarrow> string \<Rightarrow> filesys \<times> FlagResult" where
  "UnzipZIPFile GetPath parse w path output =
     (let path = GetPath path; output = GetPath output in
      case zip_OpenReader parse w path of
        Inl msg \<Rightarrow> (w, \<lparr>Flag = False, Data = msg\<rparr>)
      | Inr files \<Rightarrow> extract_files output files w)"

definition UnzipGZFile ::
    "(string \<Rightarrow> string) \<Rightarrow> gzip_decoder \<Rightarrow> filesys \<Rightarrow> string \<Rightarrow> string \<Rightarrow> filesys \<times> FlagResult" where
  "UnzipGZFile GetPath gunzip w path output =
     (let path = GetPath path; output = GetPath output in
      case os_Open w path of
        Inl err \<Rightarrow> (w, \<lparr>Flag = False, Data = Error err\<rparr>)
      | Inr gzipFile \<Rightarrow>
          (case os_Create w output of
             Inl err \<Rightarrow> (w, \<lparr>Flag = False, Data = Error err\<rparr>)
           | Inr (w1, outputFile) \<Rightarrow>
               (case gzip_NewReader gunzip w1 gzipFile path of
                  Inl msg \<Rightarrow> (w1, \<lparr>Flag = False, Data = msg\<rparr>)
                | Inr (bs, Some msg) \<Rightarrow>
                    (write_file w1 outputFile bs, \<lparr>Flag = False, Data = msg\<rparr>)
                | Inr (bs, None) \<Rightarrow>
                    (write_file w1 outputFile bs, \<lparr>Flag = True, Data = ''Success''\<rparr>))))"

definition FileExists :: "(string \<Rightarrow> string) \<Rightarrow> filesys \<Rightarrow> string \<Rightarrow> filesys \<times> FlagResult" where
  "FileExists GetPath w path =
     (let path = GetPath path in
      case os_Stat w path of
        Inr info \<Rightarrow> (w, \<lparr>Flag = True, Data = ''true''\<rparr>)
      | Inl err \<Rightarrow>
          if IsNotExist err then (w, \<lparr>Flag = True, Data = ''false''\<rparr>)
          else (w, \<lparr>Flag = False, Data = Error err\<rparr>))"

subsection \<open>The path resolver\<close>

text \<open>
  Modelled from the spec: \<^verbatim>\<open>GetPath\<close>, the path resolver, is not defined in
  \<^verbatim>\<open>io.go\<close>. The specification describes it as a function from a path string to an
  absolute, normalised path, resolved against a base path that the application
  configures, which returns its input unchanged when resolution is impossible. \<open>resolve\<close>
  normalises a rooted path, joins any other path to the base path when the base is rooted,
  and otherwise returns the input.
\<close>

definition resolve :: "string \<Rightarrow> string \<Rightarrow> string" where
  "resolve base raw =
     (if rooted raw then Clean raw
      else if rooted base then Join [base, raw]
      else raw)"

subsection \<open>Auxiliary notions\<close>

text \<open>
  A plain element is a name that can stand for a file or directory: it is not empty, is
  neither \<^verbatim>\<open>.\<close> nor \<^verbatim>\<open>..\<close>, and contains no separator.
\<close>

definition plain :: "string \<Rightarrow> bool" where
  "plain e = (e \<noteq> [] \<and> e \<noteq> ''.'' \<and> e \<noteq> ''..'' \<and> CHR ''/'' \<notin> set e)"


text \<open>
  Sample inputs for the concrete runs below: a file system given by the list of its nodes,
  with the root as working directory; a parser that finds the given entries in any archive
  file; and a decoder for which \<^verbatim>\<open>gzip.NewReader\<close> fails on every input.
\<close>

definition fs_of :: "(string list \<times> node) list \<Rightarrow> filesys" where
  "fs_of al = \<lparr>nodes = map_of al, cwd = []\<rparr>"

definition entries_of :: "zip_File list \<Rightarrow> zip_parser" where
  "entries_of files bs = Inr files"

definition gunzip_invalid :: gzip_decoder where
  "gunzip_invalid bs = Inl ''gzip: invalid header''"

section \<open>Properties of the library models\<close>

subsection \<open>Lexical paths\<close>

declare Join.simps [simp del]

lemma split_sep_not_Nil: "split_sep p \<noteq> []"
  by (cases p) (simp_all split: list.splits)

lemma split_sep_append: "split_sep (x @ CHR ''/'' # y) = split_sep x @ split_sep y"
proof (induction x)
  case Nil
  show ?case by simp
next
  case (Cons c x)
  then show ?case
    using split_sep_not_Nil [of x] by (cases "split_sep x") simp_all
qed

lemma split_sep_no_slash: "CHR ''/'' \<notin> set x \<Longrightarrow> split_sep x = [x]"
  by (induction x) auto

lemma split_sep_elems: "e \<in> set (split_sep p) \<Longrightarrow> CHR ''/'' \<notin> set e"
proof (induction p arbitrary: e)
  case Nil
  then show ?case by simp
next
  case (Cons c p)
  show ?case
  proof (cases "split_sep p")
    case Nil
    then show ?thesis using split_sep_not_Nil by blast
  next
    case (Cons h t)
    then show ?thesis
      using Cons.prems Cons.IH by (auto split: if_splits)
  qed
qed


lemma split_sep_join:
  "es \<noteq> [] \<Longrightarrow> \<forall>e\<in>set es. CHR ''/'' \<notin> set e \<Longrightarrow> split_sep (join_sep es) = es"
proof (induction es rule: join_sep.induct)
  case 1
  then show ?case by simp
next
  case (2 e)
  then show ?case by (simp add: split_sep_no_slash)
next
  case (3 e e' es)
  then show ?case
    by (simp add: split_sep_append split_sep_no_slash)
qed



lemma clean_elems_plain: "\<forall>e\<in>set es. plain e \<Longrightarrow> clean_elems r out es = out @ es"
  by (induction es arbitrary: out) (simp_all add: plain_def)

lemma clean_elems_rooted_plain:
  "\<forall>e\<in>set out. plain e \<Longrightarrow> \<forall>e\<in>set es. CHR ''/'' \<notin> set e \<Longrightarrow>
     \<forall>e\<in>set (clean_elems True out es). plain e"
proof (induction es arbitrary: out)
  case Nil
  then show ?case by simp
next
  case (Cons e es)
  have es: "\<forall>e\<in>set es. CHR ''/'' \<notin> set e" and e: "CHR ''/'' \<notin> set e"
    using Cons.prems(2) by simp_all
  consider (skip) "e = [] \<or> e = ''.''" | (up) "e = ''..''" | (name) "plain e"
    using e unfolding plain_def by blast
  then show ?case
  proof cases
    case skip
    then have eq: "clean_elems True out (e # es) = clean_elems True out es"
      by auto
    show ?thesis
      unfolding eq by (rule Cons.IH [OF Cons.prems(1) es])
  next
    case up
    have b: "\<forall>e\<in>set (butlast out). plain e"
      using Cons.prems(1) by (meson in_set_butlastD)
    have "clean_elems True out (e # es) = clean_elems True out es
        \<or> clean_elems True out (e # es) = clean_elems True (butlast out) es"
      unfolding up by simp
    then show ?thesis
    proof
      assume eq: "clean_elems True out (e # es) = clean_elems True out es"
      show ?thesis
        unfolding eq by (rule Cons.IH [OF Cons.prems(1) es])
    next
      assume eq: "clean_elems True out (e # es) = clean_elems True (butlast out) es"
      show ?thesis
        unfolding eq by (rule Cons.IH [OF b es])
    qed
  next
    case name
    then have eq: "clean_elems True out (e # es) = clean_elems True (out @ [e]) es"
      unfolding plain_def by simp
    have pl: "\<forall>x\<in>set (out @ [e]). plain x"
      using Cons.prems(1) name by simp
    show ?thesis
      unfolding eq by (rule Cons.IH [OF pl es])
  qed
qed

lemma clean_key_plain: "rooted p \<Longrightarrow> \<forall>e\<in>set (clean_key p). plain e"
  unfolding clean_key_def
  using clean_elems_rooted_plain [of "[]" "split_sep p"] split_sep_elems by simp

lemma Clean_rooted: "rooted p \<Longrightarrow> Clean p = CHR ''/'' # join_sep (clean_key p)"
  by (auto simp: Clean_def rooted_def)

lemma rooted_slash [simp]: "rooted (CHR ''/'' # x)"
  by (simp add: rooted_def)

lemma clean_key_canonical:
  assumes "\<forall>e\<in>set ks. plain e"
  shows "clean_key (CHR ''/'' # join_sep ks) = ks"
proof (cases "ks = []")
  case True
  then show ?thesis by (simp add: clean_key_def)
next
  case False
  have "\<forall>e\<in>set ks. CHR ''/'' \<notin> set e"
    using assms by (simp add: plain_def)
  then have "split_sep (join_sep ks) = ks"
    using False by (simp add: split_sep_join)
  then show ?thesis
    using assms by (simp add: clean_key_def clean_elems_plain)
qed

lemma Clean_Clean_rooted: "rooted p \<Longrightarrow> Clean (Clean p) = Clean p"
  by (simp add: Clean_rooted clean_key_canonical clean_key_plain)

lemma rooted_Clean: "rooted p \<Longrightarrow> rooted (Clean p)"
  by (simp add: Clean_rooted)


lemma plain_no_slash: "plain e \<Longrightarrow> CHR ''/'' \<notin> set e"
  by (simp add: plain_def)


lemma split_sep_rooted_join:
  assumes "\<forall>e\<in>set ks. plain e"
  shows "split_sep (CHR ''/'' # join_sep ks) = [] # (if ks = [] then [[]] else ks)"
  using assms split_sep_join [of ks] by (simp add: plain_def)




subsection \<open>Base64\<close>

lemma decodeMap_all: "list_all (\<lambda>v. decodeMap (encodeStd ! v) = Some v) [0..<64]"
  by code_simp

lemma decodeMap_sextet: "v < 64 \<Longrightarrow> decodeMap (encodeStd ! v) = Some v"
  using decodeMap_all by (simp add: list_all_iff)


lemma decodeMap_of_sextet: "decodeMap (sextet v) = Some (v mod 64)"
  by (simp add: sextet_def decodeMap_sextet)


lemma sextets_recompose:
  fixes v :: nat
  shows "v div 262144 mod 64 * 262144 + v div 4096 mod 64 * 4096
           + v div 64 mod 64 * 64 + v mod 64 = v mod 16777216"
proof -
  define w1 where "w1 = v div 64"
  define w2 where "w2 = w1 div 64"
  define w3 where "w3 = w2 div 64"
  have d2: "v div 4096 = w2" and d3: "v div 262144 = w3"
    by (simp_all add: w1_def w2_def w3_def div_mult2_eq [symmetric])
  have 1: "v mod 16777216 = 64 * (w1 mod 262144) + v mod 64"
    using mod_mult2_eq [of v 64 262144] by (simp add: w1_def)
  have 2: "w1 mod 262144 = 64 * (w2 mod 4096) + w1 mod 64"
    using mod_mult2_eq [of w1 64 4096] by (simp add: w2_def)
  have 3: "w2 mod 4096 = 64 * (w3 mod 64) + w2 mod 64"
    using mod_mult2_eq [of w2 64 64] by (simp add: w3_def)
  show ?thesis
    unfolding d2 d3 1 2 3 w1_def [symmetric] by simp
qed


lemma char_of_mod: "char_of (n::nat) = c \<longleftrightarrow> n mod 256 = of_char c"
  by (simp add: char_of_eq_iff take_bit_eq_mod)

lemma bytes_split:
  fixes a b c :: nat
  assumes "b < 256" "c < 256"
  shows "(a * 65536 + b * 256 + c) div 65536 = a"
    and "(a * 65536 + b * 256 + c) div 256 mod 256 = b"
    and "(a * 65536 + b * 256 + c) mod 256 = c"
proof -
  show "(a * 65536 + b * 256 + c) div 65536 = a"
    using assms by (intro div_nat_eqI) simp_all
  have "(a * 65536 + b * 256 + c) div 256 = a * 256 + b"
    using assms by (intro div_nat_eqI) simp_all
  then show "(a * 65536 + b * 256 + c) div 256 mod 256 = b"
    using assms by simp
  have "(a * 65536 + b * 256 + c) mod 256 = (c + (a * 256 + b) * 256) mod 256"
    by (simp add: algebra_simps)
  also have "\<dots> = c"
    using assms by (simp only: mod_mult_self1 mod_less)
  finally show "(a * 65536 + b * 256 + c) mod 256 = c" .
qed


lemma assemble_sextets:
  fixes a b c :: char
  defines "val \<equiv> of_char a * 65536 + of_char b * 256 + of_char c"
  shows "assemble (val div 262144 mod 64) (val div 4096 mod 64) (val div 64 mod 64) (val mod 64)
           = [a, b, c]"
proof -
  have lt: "val < 16777216"
    using nat_of_char_less_256 [of a] nat_of_char_less_256 [of b] nat_of_char_less_256 [of c]
    unfolding val_def by linarith
  have r: "val div 262144 mod 64 * 262144 + val div 4096 mod 64 * 4096
             + val div 64 mod 64 * 64 + val mod 64 = val"
    using sextets_recompose [of val] lt by simp
  have "char_of (val div 65536) = a" "char_of (val div 256) = b" "char_of val = c"
    using bytes_split [of "of_char b" "of_char c" "of_char a"]
    by (simp_all add: val_def char_of_mod)
  then show ?thesis
    by (simp add: assemble_def r)
qed

lemma decodeMap_pad: "decodeMap (CHR ''='') = None"
  by code_simp

lemma Decode_sextet:
  "Decode dbuf si (sextet v # src) =
     (if length dbuf = 3
      then (case Decode [] (Suc si) src of
              Inl e \<Rightarrow> Inl e
            | Inr bs \<Rightarrow> Inr (quantum_bytes (dbuf @ [v mod 64]) @ bs))
      else Decode (dbuf @ [v mod 64]) (Suc si) src)"
  by (simp add: decodeMap_of_sextet)

lemma Decode_quad:
  "Decode [] si (sextet v0 # sextet v1 # sextet v2 # sextet v3 # src) =
     (case Decode [] (Suc (Suc (Suc (Suc si)))) src of
        Inl e \<Rightarrow> Inl e
      | Inr bs \<Rightarrow> Inr (assemble (v0 mod 64) (v1 mod 64) (v2 mod 64) (v3 mod 64) @ bs))"
  by (simp only: Decode_sextet) (simp cong: sum.case_cong)

lemma Decode_pad1:
  "Decode [] si [sextet v0, sextet v1, sextet v2, CHR ''=''] =
     Inr (take 2 (assemble (v0 mod 64) (v1 mod 64) (v2 mod 64) 0))"
  by (simp only: Decode_sextet) (simp add: decodeMap_pad finish_padded_def)

lemma Decode_pad2:
  "Decode [] si [sextet v0, sextet v1, CHR ''='', CHR ''=''] =
     Inr (take 1 (assemble (v0 mod 64) (v1 mod 64) 0 0))"
  by (simp only: Decode_sextet) (simp add: decodeMap_pad finish_padded_def)

lemma shifted_mod64:
  fixes x y :: nat
  shows "(x * 65536 + y * 256) mod 64 = 0" and "x * 65536 div 64 mod 64 = 0"
    and "x * 65536 mod 64 = 0"
proof -
  have "x * 65536 + y * 256 = 64 * (x * 1024 + y * 4)" by simp
  then show "(x * 65536 + y * 256) mod 64 = 0"
    by (simp only: mod_mult_self1_is_0)
  have "x * 65536 div 64 = 64 * (x * 16)"
    by (intro div_nat_eqI) simp_all
  then show "x * 65536 div 64 mod 64 = 0"
    by (simp only: mod_mult_self1_is_0)
  have "x * 65536 = 64 * (x * 1024)" by simp
  then show "x * 65536 mod 64 = 0"
    by (simp only: mod_mult_self1_is_0)
qed

lemma assemble_3:
  fixes a b :: char
  defines "val \<equiv> of_char a * 65536 + of_char b * 256"
  shows "take 2 (assemble (val div 262144 mod 64) (val div 4096 mod 64) (val div 64 mod 64) 0)
           = [a, b]"
proof -
  have z: "val mod 64 = 0"
    unfolding val_def by (rule shifted_mod64)
  have v: "val = of_char a * 65536 + of_char b * 256 + of_char (CHR 0x00)"
    by (simp add: val_def)
  have "assemble (val div 262144 mod 64) (val div 4096 mod 64) (val div 64 mod 64) (val mod 64)
          = [a, b, CHR 0x00]"
    unfolding v by (rule assemble_sextets)
  then show ?thesis
    unfolding z by simp
qed

lemma assemble_2:
  fixes a :: char
  defines "val \<equiv> of_char a * 65536"
  shows "take 1 (assemble (val div 262144 mod 64) (val div 4096 mod 64) 0 0) = [a]"
proof -
  have z: "val mod 64 = 0" "val div 64 mod 64 = 0"
    unfolding val_def by (rule shifted_mod64)+
  have v: "val = of_char a * 65536 + of_char (CHR 0x00) * 256 + of_char (CHR 0x00)"
    by (simp add: val_def)
  have "assemble (val div 262144 mod 64) (val div 4096 mod 64) (val div 64 mod 64) (val mod 64)
          = [a, CHR 0x00, CHR 0x00]"
    unfolding v by (rule assemble_sextets)
  then show ?thesis
    unfolding z by simp
qed


lemma Decode_EncodeToString: "Decode [] si (EncodeToString bs) = Inr bs"
proof (induction bs arbitrary: si rule: EncodeToString.induct)
  case (1 a b c rest)
  show ?case
    by (simp only: EncodeToString.simps Let_def append.simps Decode_quad "1.IH" sum.case
          assemble_sextets)
next
  case (2 a b)
  show ?case
    by (simp only: EncodeToString.simps Let_def Decode_pad1 assemble_3)
next
  case (3 a)
  show ?case
    by (simp only: EncodeToString.simps Let_def Decode_pad2 assemble_2)
next
  case 4
  show ?case by simp
qed

lemma DecodeString_EncodeToString: "DecodeString (EncodeToString bs) = Inr bs"
  by (simp add: DecodeString_def Decode_EncodeToString)

subsection \<open>The file system\<close>

lemma walk_update_other:
  "walk w cur es = Inr k \<Longrightarrow> nodes w x \<noteq> Some Directory \<Longrightarrow>
     walk (w\<lparr>nodes := (nodes w)(x \<mapsto> v)\<rparr>) cur es = Inr k"
proof (induction es arbitrary: cur)
  case Nil
  then show ?case by simp
next
  case (Cons e es)
  from Cons.prems have d: "nodes w cur = Some Directory"
    by (simp split: option.splits node.splits)
  with Cons.prems(2) have ne: "cur \<noteq> x" by auto
  from Cons.prems(1) d
  have "walk w cur es = Inr k \<and> (e = [] \<or> e = ''.'')
      \<or> walk w (butlast cur) es = Inr k \<and> \<not> (e = [] \<or> e = ''.'') \<and> e = ''..''
      \<or> walk w (cur @ [e]) es = Inr k \<and> \<not> (e = [] \<or> e = ''.'') \<and> e \<noteq> ''..''"
    by (simp split: if_splits)
  then show ?case
    using Cons.IH [OF _ Cons.prems(2)] d ne by (auto simp del: walk.simps simp add: walk.simps(2))
qed

lemma os_Create_Inr:
  assumes "os_Create w name = Inr (w', k)"
  shows "locate w name = Inr k" and "nodes w k \<noteq> Some Directory"
    and "w' = w\<lparr>nodes := (nodes w)(k \<mapsto> RegularFile [])\<rparr>"
  using assms unfolding os_Create_def
  by (auto split: sum.splits if_splits)

lemma os_WriteFile_None:
  assumes "os_WriteFile w name bs = (w', None)"
  shows "\<exists>k. locate w name = Inr k \<and> nodes w k \<noteq> Some Directory
           \<and> w' = w\<lparr>nodes := (nodes w)(k \<mapsto> RegularFile bs)\<rparr>"
proof -
  from assms obtain w1 k where c: "os_Create w name = Inr (w1, k)" and w': "w' = write_file w1 k bs"
    unfolding os_WriteFile_def by (auto split: sum.splits)
  from os_Create_Inr [OF c] w' show ?thesis
    by (simp add: write_file_def)
qed

lemma locate_update_other:
  "locate w name = Inr k \<Longrightarrow> nodes w x \<noteq> Some Directory \<Longrightarrow>
     locate (w\<lparr>nodes := (nodes w)(x \<mapsto> v)\<rparr>) name = Inr k"
  unfolding locate_def start_def
  using walk_update_other [of w _ _ k x v]
  by (auto split: if_splits)

lemma os_ReadFile_after_WriteFile:
  assumes "os_WriteFile w name bs = (w', None)"
  shows "os_ReadFile w' name = Inr bs"
proof -
  from os_WriteFile_None [OF assms] obtain k where
    l: "locate w name = Inr k" and nd: "nodes w k \<noteq> Some Directory"
    and w': "w' = w\<lparr>nodes := (nodes w)(k \<mapsto> RegularFile bs)\<rparr>"
    by blast
  have "locate w' name = Inr k"
    unfolding w' by (rule locate_update_other [OF l nd])
  moreover have "nodes w' k = Some (RegularFile bs)"
    by (simp add: w')
  ultimately show ?thesis
    by (simp add: os_ReadFile_def os_Open_def read_all_def)
qed

lemma mkdir_elems_frame:
  "mkdir_elems w cur es = (w', e) \<Longrightarrow>
     cwd w' = cwd w \<and> (\<forall>k. nodes w' k = nodes w k \<or> (nodes w k = None \<and> nodes w' k = Some Directory))"
proof (induction es arbitrary: w cur)
  case Nil
  then show ?case
    by (auto split: option.splits node.splits)
next
  case (Cons x es)
  let ?w1 = "w\<lparr>nodes := (nodes w)(cur @ [x] \<mapsto> Directory)\<rparr>"
  from Cons.prems consider
      (stop) "w' = w"
    | (same) c where "mkdir_elems w c es = (w', e)"
    | (new) "nodes w (cur @ [x]) = None" "mkdir_elems ?w1 (cur @ [x]) es = (w', e)"
    by (auto split: option.splits node.splits if_splits)
  then show ?case
  proof cases
    case stop
    then show ?thesis by simp
  next
    case same
    then show ?thesis by (rule Cons.IH)
  next
    case new
    from Cons.IH [OF new(2)] have
      c: "cwd w' = cwd w" and
      f: "\<And>k. nodes w' k = nodes ?w1 k \<or> (nodes ?w1 k = None \<and> nodes w' k = Some Directory)"
      by simp_all
    show ?thesis
    proof (intro conjI allI)
      show "cwd w' = cwd w" by (rule c)
    next
      fix k
      show "nodes w' k = nodes w k \<or> (nodes w k = None \<and> nodes w' k = Some Directory)"
        using f [of k] new(1) by (cases "k = cur @ [x]") auto
    qed
  qed
qed

lemma os_MkdirAll_frame:
  assumes "os_MkdirAll w path = (w', e)"
  shows "cwd w' = cwd w"
    and "nodes w' k = nodes w k \<or> (nodes w k = None \<and> nodes w' k = Some Directory)"
proof -
  have "cwd w' = cwd w \<and> (\<forall>k. nodes w' k = nodes w k \<or> (nodes w k = None \<and> nodes w' k = Some Directory))"
  proof (cases "path = []")
    case True
    with assms show ?thesis by (simp add: os_MkdirAll_def)
  next
    case False
    obtain w1 e1 where m: "mkdir_elems w (start w path) (split_sep path) = (w1, e1)"
      by (cases "mkdir_elems w (start w path) (split_sep path)")
    with assms False have "w' = w1"
      by (auto simp: os_MkdirAll_def split: option.splits)
    with mkdir_elems_frame [OF m] show ?thesis by simp
  qed
  then show "cwd w' = cwd w"
    and "nodes w' k = nodes w k \<or> (nodes w k = None \<and> nodes w' k = Some Directory)"
    by simp_all
qed









subsection \<open>The extraction loop\<close>






subsection \<open>Absolute paths in an existing directory\<close>








subsection \<open>Normalised absolute paths\<close>

lemma rooted_Join:
  assumes "rooted base"
  shows "rooted (Join [base, raw])" and "Clean (Join [base, raw]) = Join [base, raw]"
proof -
  from assms obtain t where b: "base = CHR ''/'' # t"
    by (cases base) (auto simp: rooted_def)
  have j: "Join [base, raw] = Clean (base @ CHR ''/'' # raw)"
    by (simp add: Join.simps b)
  have r: "rooted (base @ CHR ''/'' # raw)"
    by (simp add: b)
  show "rooted (Join [base, raw])"
    unfolding j by (rule rooted_Clean [OF r])
  show "Clean (Join [base, raw]) = Join [base, raw]"
    unfolding j by (rule Clean_Clean_rooted [OF r])
qed

lemma endsWithDot_last_elem:
  assumes "endsWithDot p"
  shows "last (split_sep p) = ''.''"
proof (cases "p = ''.''")
  case True
  then show ?thesis by simp
next
  case False
  with assms have l: "2 \<le> length p" and d: "p ! (length p - 1) = CHR ''.''"
    and s: "p ! (length p - 2) = CHR ''/''"
    by (auto simp: endsWithDot_def)
  from l obtain q a b where p: "p = q @ [a, b]"
    by (cases p rule: rev_cases; cases "butlast p" rule: rev_cases) auto
  from d s have "b = CHR ''.''" "a = CHR ''/''"
    by (simp_all add: p nth_append)
  then have "p = q @ CHR ''/'' # ''.''"
    by (simp add: p)
  then have "split_sep p = split_sep q @ [''.'']"
    by (simp only: split_sep_append) simp
  then show ?thesis by simp
qed

lemma canonical_not_endsWithDot:
  assumes "rooted p" and "Clean p = p"
  shows "\<not> endsWithDot p"
proof
  assume e: "endsWithDot p"
  let ?ks = "clean_key p"
  have ks: "\<forall>e\<in>set ?ks. plain e"
    by (rule clean_key_plain [OF assms(1)])
  have "p = CHR ''/'' # join_sep ?ks"
    using Clean_rooted [OF assms(1)] assms(2) by simp
  then have "split_sep p = [] # (if ?ks = [] then [[]] else ?ks)"
    using split_sep_rooted_join [OF ks] by simp
  with endsWithDot_last_elem [OF e] have "?ks \<noteq> [] \<and> last ?ks = ''.''"
    by (auto split: if_splits)
  then have "''.'' \<in> set ?ks"
    using last_in_set by metis
  with ks show False
    by (auto simp: plain_def)
qed



text \<open>
  C2. A failure to create the directory of a directory entry should abort the extraction.
  In this run the output directory holds a regular file \<^verbatim>\<open>a\<close> and the archive holds
  the directory entry \<^verbatim>\<open>a/\<close>: \<^verbatim>\<open>MkdirAll\<close> fails, and \<open>UnzipZIPFile\<close> still returns
  \<^verbatim>\<open>Success\<close>.
\<close>

theorem UnzipZIPFile_ignores_directory_failure:
  "Join [''/out'', ''a/''] = ''/out/a''
   \<and> snd (os_MkdirAll
        (fs_of [([], Directory), ([''out''], Directory), ([''out'', ''a''], RegularFile ''x''),
                ([''z.zip''], RegularFile ''PK'')]) ''/out/a'')
       = Some (PathError ''mkdir'' ''/out/a'' ENOTDIR)
   \<and> UnzipZIPFile id (entries_of [\<lparr>Name = ''a/'', IsDir = True, Stream = Inr ([], None)\<rparr>])
        (fs_of [([], Directory), ([''out''], Directory), ([''out'', ''a''], RegularFile ''x''),
                ([''z.zip''], RegularFile ''PK'')]) ''/z.zip'' ''/out''
       = (fs_of [([], Directory), ([''out''], Directory), ([''out'', ''a''], RegularFile ''x''),
                 ([''z.zip''], RegularFile ''PK'')],
          \<lparr>Flag = True, Data = ''Success''\<rparr>)"
proof -
  let ?w = "fs_of [([], Directory), ([''out''], Directory), ([''out'', ''a''], RegularFile ''x''),
                ([''z.zip''], RegularFile ''PK'')]"
  have j: "Join [''/out'', ''a/''] = ''/out/a''"
    by (simp add: Join.simps Clean_def clean_key_def rooted_def)
  have c: "Clean ''/out'' = ''/out''"
    by (simp add: Clean_def clean_key_def rooted_def)
  have m: "os_MkdirAll ?w ''/out/a'' = (?w, Some (PathError ''mkdir'' ''/out/a'' ENOTDIR))"
    by (simp add: os_MkdirAll_def start_def rooted_def fs_of_def)
  have z: "zip_OpenReader (entries_of [\<lparr>Name = ''a/'', IsDir = True, Stream = Inr ([], None)\<rparr>])
             ?w ''/z.zip'' = Inr [\<lparr>Name = ''a/'', IsDir = True, Stream = Inr ([], None)\<rparr>]"
    by (simp add: zip_OpenReader_def os_ReadFile_def os_Open_def read_all_def locate_def
          start_def rooted_def fs_of_def entries_of_def)
  show ?thesis
    using j c m z by (simp add: UnzipZIPFile_def extract_file_def HasPrefix_def PathSeparator_def)
qed

text \<open>
  C3, as stated, puts the construction of the decompressing reader before the creation of
  the output file, so that an invalid stream would leave the output file untouched. The
  code creates the output file first: with an input that is not a GZip stream, an
  existing output file is emptied and a missing one is created.
\<close>

theorem UnzipGZFile_invalid_stream_counterexample:
  "os_Open (fs_of [([], Directory), ([''in.gz''], RegularFile ''plain text''),
                   ([''out.txt''], RegularFile ''old'')]) ''/in.gz'' = Inr [''in.gz'']
   \<and> gunzip_invalid ''plain text'' = Inl ''gzip: invalid header''
   \<and> snd (UnzipGZFile id gunzip_invalid
        (fs_of [([], Directory), ([''in.gz''], RegularFile ''plain text''),
                ([''out.txt''], RegularFile ''old'')]) ''/in.gz'' ''/out.txt'')
       = \<lparr>Flag = False, Data = ''gzip: invalid header''\<rparr>
   \<and> nodes (fs_of [([], Directory), ([''in.gz''], RegularFile ''plain text''),
                ([''out.txt''], RegularFile ''old'')]) [''out.txt''] = Some (RegularFile ''old'')
   \<and> nodes (fst (UnzipGZFile id gunzip_invalid
        (fs_of [([], Directory), ([''in.gz''], RegularFile ''plain text''),
                ([''out.txt''], RegularFile ''old'')]) ''/in.gz'' ''/out.txt'')) [''out.txt'']
       = Some (RegularFile [])
   \<and> nodes (fs_of [([], Directory), ([''in.gz''], RegularFile ''plain text''),
                ([''out.txt''], RegularFile ''old'')]) [''new.txt''] = None
   \<and> nodes (fst (UnzipGZFile id gunzip_invalid
        (fs_of [([], Directory), ([''in.gz''], RegularFile ''plain text''),
                ([''out.txt''], RegularFile ''old'')]) ''/in.gz'' ''/new.txt'')) [''new.txt'']
       = Some (RegularFile [])"
  by (simp add: UnzipGZFile_def os_Open_def os_Create_def gzip_NewReader_def read_all_def
        locate_def start_def rooted_def fs_of_def gunzip_invalid_def)

text \<open>
  C3, amended. \<open>UnzipGZFile\<close> opens the input file, then creates or truncates the output
  file, then constructs the decompressing reader, then copies. A failure to open the input
  or to create the output is returned with its message and changes nothing. When the
  input opens and the output is created but the reader cannot be constructed, the
  operation returns a failure with the message of the reader, and the output file exists
  and is empty. Otherwise the bytes delivered by the reader are written to the output
  file, and the result is \<^verbatim>\<open>Success\<close> or the error that ended the reading.
\<close>

theorem UnzipGZFile_creates_output_before_reader:
  "(\<forall>err. os_Open w (GetPath path) = Inl err \<longrightarrow>
      UnzipGZFile GetPath gunzip w path output = (w, \<lparr>Flag = False, Data = Error err\<rparr>))
   \<and> (\<forall>gzipFile err. os_Open w (GetPath path) = Inr gzipFile
          \<and> os_Create w (GetPath output) = Inl err \<longrightarrow>
      UnzipGZFile GetPath gunzip w path output = (w, \<lparr>Flag = False, Data = Error err\<rparr>))
   \<and> (\<forall>gzipFile w1 outputFile msg. os_Open w (GetPath path) = Inr gzipFile
          \<and> os_Create w (GetPath output) = Inr (w1, outputFile)
          \<and> gzip_NewReader gunzip w1 gzipFile (GetPath path) = Inl msg \<longrightarrow>
      UnzipGZFile GetPath gunzip w path output = (w1, \<lparr>Flag = False, Data = msg\<rparr>)
      \<and> nodes w1 outputFile = Some (RegularFile [])
      \<and> os_ReadFile w1 (GetPath output) = Inr [])
   \<and> (\<forall>gzipFile w1 outputFile bs fin. os_Open w (GetPath path) = Inr gzipFile
          \<and> os_Create w (GetPath output) = Inr (w1, outputFile)
          \<and> gzip_NewReader gunzip w1 gzipFile (GetPath path) = Inr (bs, fin) \<longrightarrow>
      UnzipGZFile GetPath gunzip w path output
        = (write_file w1 outputFile bs,
           case fin of None \<Rightarrow> \<lparr>Flag = True, Data = ''Success''\<rparr>
                     | Some msg \<Rightarrow> \<lparr>Flag = False, Data = msg\<rparr>))"
proof (intro conjI allI impI)
  fix gzipFile w1 outputFile msg
  assume a: "os_Open w (GetPath path) = Inr gzipFile
          \<and> os_Create w (GetPath output) = Inr (w1, outputFile)
          \<and> gzip_NewReader gunzip w1 gzipFile (GetPath path) = Inl msg"
  then have c: "os_Create w (GetPath output) = Inr (w1, outputFile)"
    by simp
  show "UnzipGZFile GetPath gunzip w path output = (w1, \<lparr>Flag = False, Data = msg\<rparr>)"
    using a by (simp add: UnzipGZFile_def)
  show n: "nodes w1 outputFile = Some (RegularFile [])"
    using os_Create_Inr(3) [OF c] by simp
  have "locate w1 (GetPath output) = Inr outputFile"
    using locate_update_other [OF os_Create_Inr(1) [OF c] os_Create_Inr(2) [OF c]]
      os_Create_Inr(3) [OF c] by simp
  then show "os_ReadFile w1 (GetPath output) = Inr []"
    using n by (simp add: os_ReadFile_def os_Open_def read_all_def)
qed (auto simp: UnzipGZFile_def split: option.splits)

theorem UnzipGZFile_creates_output_before_reader_witness:
  "os_Open (fs_of [([], Directory), ([''in.gz''], RegularFile ''plain text''),
                   ([''out.txt''], RegularFile ''old'')]) ''/in.gz'' = Inr [''in.gz'']
   \<and> UnzipGZFile id gunzip_invalid
        (fs_of [([], Directory), ([''in.gz''], RegularFile ''plain text''),
                ([''out.txt''], RegularFile ''old'')]) ''/in.gz'' ''/out.txt''
       = (fs_of [([''out.txt''], RegularFile []), ([], Directory),
                 ([''in.gz''], RegularFile ''plain text'')],
          \<lparr>Flag = False, Data = ''gzip: invalid header''\<rparr>)
   \<and> os_ReadFile (fs_of [([''out.txt''], RegularFile []), ([], Directory),
                 ([''in.gz''], RegularFile ''plain text'')]) ''/out.txt'' = Inr []"
proof -
  let ?w = "fs_of [([], Directory), ([''in.gz''], RegularFile ''plain text''),
                   ([''out.txt''], RegularFile ''old'')]"
  let ?w1 = "fs_of [([''out.txt''], RegularFile []), ([], Directory),
                 ([''in.gz''], RegularFile ''plain text'')]"
  have o: "os_Open ?w ''/in.gz'' = Inr [''in.gz'']"
    by (simp add: os_Open_def locate_def start_def rooted_def fs_of_def)
  have c: "os_Create ?w ''/out.txt'' = Inr (?w1, [''out.txt''])"
    by (auto simp: os_Create_def locate_def start_def rooted_def fs_of_def)
  have g: "gzip_NewReader gunzip_invalid ?w1 [''in.gz''] ''/in.gz'' = Inl ''gzip: invalid header''"
    by (simp add: gzip_NewReader_def read_all_def fs_of_def gunzip_invalid_def)
  from UnzipGZFile_creates_output_before_reader [of ?w id "''/in.gz''" gunzip_invalid "''/out.txt''",
      THEN conjunct2, THEN conjunct2, THEN conjunct1, rule_format,
      of "[''in.gz'']" ?w1 "[''out.txt'']" "''gzip: invalid header''"] o c g
  show ?thesis
    by simp
qed




section \<open>The claims\<close>

text \<open>
  C5. For every byte sequence \<open>b\<close>, decoding the standard padded base64 encoding of
  \<open>b\<close> gives \<open>b\<close> back. Writing that encoding with \<open>Writefile\<close> in Binary mode
  succeeds exactly when creating the parent directory and writing the file succeed, and
  then the file holds the bytes \<open>b\<close> and \<open>Readfile\<close> in Binary mode on the same path
  succeeds and returns the encoding again.
\<close>

theorem Writefile_Readfile_Binary_roundtrip:
  assumes "Writefile GetPath w path (EncodeToString b) \<lparr>Mode = Binary\<rparr> = (w', r)"
  shows "DecodeString (EncodeToString b) = Inr b
    \<and> Flag r = (snd (os_MkdirAll w (Dir (GetPath path))) = None
          \<and> snd (os_WriteFile (fst (os_MkdirAll w (Dir (GetPath path)))) (GetPath path) b) = None)
    \<and> (Flag r \<longrightarrow>
          os_ReadFile w' (GetPath path) = Inr b
          \<and> Readfile GetPath w' path \<lparr>Mode = Binary\<rparr>
              = (w', \<lparr>Flag = True, Data = EncodeToString b\<rparr>))"
proof -
  obtain w1 e1 where m: "os_MkdirAll w (Dir (GetPath path)) = (w1, e1)"
    by (cases "os_MkdirAll w (Dir (GetPath path))")
  obtain w2 e2 where wr: "os_WriteFile w1 (GetPath path) b = (w2, e2)"
    by (cases "os_WriteFile w1 (GetPath path) b")
  have ne: "Binary \<noteq> Text"
    by (simp add: Binary_def Text_def)
  have flag: "Flag r = (e1 = None \<and> e2 = None)" and ok: "Flag r \<Longrightarrow> w' = w2"
    using assms m wr ne
    by (auto simp: Writefile_def DecodeString_EncodeToString split: option.splits)
  have rd: "os_ReadFile w' (GetPath path) = Inr b" if "Flag r"
    using that flag ok wr os_ReadFile_after_WriteFile [of w1 "GetPath path" b w2] by simp
  show ?thesis
    using flag rd m wr ne
    by (simp add: DecodeString_EncodeToString Readfile_def)
qed

theorem Writefile_Readfile_Binary_roundtrip_witness:
  "Flag (snd (Writefile id (fs_of [([], Directory)]) ''/data/blob.bin''
            (EncodeToString [CHR 0x00, CHR 0xFF, CHR 0x10, CHR 0x61]) \<lparr>Mode = Binary\<rparr>))
   \<and> os_ReadFile
        (fst (Writefile id (fs_of [([], Directory)]) ''/data/blob.bin''
            (EncodeToString [CHR 0x00, CHR 0xFF, CHR 0x10, CHR 0x61]) \<lparr>Mode = Binary\<rparr>))
        ''/data/blob.bin'' = Inr [CHR 0x00, CHR 0xFF, CHR 0x10, CHR 0x61]
   \<and> Data (snd (Readfile id
        (fst (Writefile id (fs_of [([], Directory)]) ''/data/blob.bin''
            (EncodeToString [CHR 0x00, CHR 0xFF, CHR 0x10, CHR 0x61]) \<lparr>Mode = Binary\<rparr>))
        ''/data/blob.bin'' \<lparr>Mode = Binary\<rparr>)) = ''AP8QYQ==''"
proof -
  let ?w = "fs_of [([], Directory)]"
  let ?w1 = "fs_of [([''data''], Directory), ([], Directory)]"
  let ?W = "Writefile id ?w ''/data/blob.bin''
            (EncodeToString [CHR 0x00, CHR 0xFF, CHR 0x10, CHR 0x61]) \<lparr>Mode = Binary\<rparr>"
  have d: "Dir ''/data/blob.bin'' = ''/data''"
    by (simp add: Dir_def Clean_def clean_key_def rooted_def)
  have m: "os_MkdirAll ?w ''/data'' = (?w1, None)"
    by (simp add: os_MkdirAll_def start_def rooted_def fs_of_def)
  have wr: "snd (os_WriteFile ?w1 ''/data/blob.bin'' [CHR 0x00, CHR 0xFF, CHR 0x10, CHR 0x61]) = None"
    by (simp add: os_WriteFile_def os_Create_def locate_def start_def rooted_def fs_of_def)
  have e: "EncodeToString [CHR 0x00, CHR 0xFF, CHR 0x10, CHR 0x61] = ''AP8QYQ==''"
    by (simp add: sextet_def encodeStd_def)
  have "?W = (fst ?W, snd ?W)"
    by simp
  from Writefile_Readfile_Binary_roundtrip [OF this] d m wr e show ?thesis
    by simp
qed

text \<open>
  C6. When the content is not valid base64, so that decoding fails, \<open>Writefile\<close> in Binary
  mode returns a failure and never reaches the write: the state it returns is the one
  after creating the parent directory, in which no regular file has been created or
  changed. When the parent directory could be created, the message is that of the decode
  error.
\<close>

theorem Writefile_Binary_invalid_base64:
  assumes "DecodeString content = Inl err"
    and "Writefile GetPath w path content \<lparr>Mode = Binary\<rparr> = (w', r)"
  shows "\<not> Flag r
    \<and> w' = fst (os_MkdirAll w (Dir (GetPath path)))
    \<and> (\<forall>k. nodes w' k = nodes w k \<or> (nodes w k = None \<and> nodes w' k = Some Directory))
    \<and> (snd (os_MkdirAll w (Dir (GetPath path))) = None \<longrightarrow>
          Data r = CorruptInputError_Error err)"
proof -
  obtain w1 e1 where m: "os_MkdirAll w (Dir (GetPath path)) = (w1, e1)"
    by (cases "os_MkdirAll w (Dir (GetPath path))")
  have ne: "Binary \<noteq> Text"
    by (simp add: Binary_def Text_def)
  have r: "\<not> Flag r" "w' = w1" "e1 = None \<longrightarrow> Data r = CorruptInputError_Error err"
    using assms m ne by (auto simp: Writefile_def split: option.splits)
  show ?thesis
    using r m os_MkdirAll_frame(2) [OF m] by simp
qed

theorem Writefile_Binary_invalid_base64_witness:
  "DecodeString ''!!!'' = Inl (CorruptInputError 0)
   \<and> Writefile id (fs_of [([], Directory)]) ''/data/blob.bin'' ''!!!'' \<lparr>Mode = Binary\<rparr>
       = (fs_of [([''data''], Directory), ([], Directory)],
          \<lparr>Flag = False, Data = ''illegal base64 data at input byte 0''\<rparr>)"
proof -
  let ?W = "Writefile id (fs_of [([], Directory)]) ''/data/blob.bin'' ''!!!'' \<lparr>Mode = Binary\<rparr>"
  have d: "DecodeString ''!!!'' = Inl (CorruptInputError 0)"
    by (simp add: DecodeString_def decodeMap_def encodeStd_def)
  have p: "Dir ''/data/blob.bin'' = ''/data''"
    by (simp add: Dir_def Clean_def clean_key_def rooted_def)
  have m: "os_MkdirAll (fs_of [([], Directory)]) ''/data''
             = (fs_of [([''data''], Directory), ([], Directory)], None)"
    by (simp add: os_MkdirAll_def start_def rooted_def fs_of_def)
  have i: "Itoa 0 = ''0''"
    by (simp add: Itoa.simps char_of_mod)
  have "?W = (fst ?W, snd ?W)"
    by simp
  from Writefile_Binary_invalid_base64 [OF d this] p m i d show ?thesis
    by (cases "snd ?W") (auto simp: prod_eq_iff)
qed

text \<open>
  C7. \<open>FileExists\<close> returns success with \<^verbatim>\<open>true\<close> when the stat of the resolved path
  succeeds, success with \<^verbatim>\<open>false\<close> when the stat fails because the path does not exist,
  and a failure with the message of the error when the stat fails for any other reason.
  The file system is left as it was.
\<close>

theorem FileExists_results:
  "(\<forall>info. os_Stat w (GetPath path) = Inr info \<longrightarrow>
      FileExists GetPath w path = (w, \<lparr>Flag = True, Data = ''true''\<rparr>))
   \<and> (\<forall>err. os_Stat w (GetPath path) = Inl err \<and> IsNotExist err \<longrightarrow>
      FileExists GetPath w path = (w, \<lparr>Flag = True, Data = ''false''\<rparr>))
   \<and> (\<forall>err. os_Stat w (GetPath path) = Inl err \<and> \<not> IsNotExist err \<longrightarrow>
      FileExists GetPath w path = (w, \<lparr>Flag = False, Data = Error err\<rparr>))"
  by (simp add: FileExists_def)

theorem FileExists_results_witness:
  "FileExists id (fs_of [([], Directory), ([''etc''], Directory), ([''etc'', ''hosts''], RegularFile ''x'')])
      ''/etc/hosts''
     = (fs_of [([], Directory), ([''etc''], Directory), ([''etc'', ''hosts''], RegularFile ''x'')],
        \<lparr>Flag = True, Data = ''true''\<rparr>)
   \<and> FileExists id (fs_of [([], Directory), ([''etc''], Directory), ([''etc'', ''hosts''], RegularFile ''x'')])
      ''/etc/motd''
     = (fs_of [([], Directory), ([''etc''], Directory), ([''etc'', ''hosts''], RegularFile ''x'')],
        \<lparr>Flag = True, Data = ''false''\<rparr>)
   \<and> FileExists id (fs_of [([], Directory), ([''etc''], Directory), ([''etc'', ''hosts''], RegularFile ''x'')])
      ''/etc/hosts/x''
     = (fs_of [([], Directory), ([''etc''], Directory), ([''etc'', ''hosts''], RegularFile ''x'')],
        \<lparr>Flag = False, Data = ''stat /etc/hosts/x: not a directory''\<rparr>)"
proof -
  let ?w = "fs_of [([], Directory), ([''etc''], Directory), ([''etc'', ''hosts''], RegularFile ''x'')]"
  have s1: "os_Stat ?w (id ''/etc/hosts'') = Inr (RegularFile ''x'')"
    by (simp add: os_Stat_def locate_def start_def rooted_def fs_of_def)
  have s2: "os_Stat ?w (id ''/etc/motd'') = Inl (PathError ''stat'' ''/etc/motd'' ENOENT)
      \<and> IsNotExist (PathError ''stat'' ''/etc/motd'' ENOENT)"
    by (simp add: os_Stat_def locate_def start_def rooted_def fs_of_def)
  have s3: "os_Stat ?w (id ''/etc/hosts/x'') = Inl (PathError ''stat'' ''/etc/hosts/x'' ENOTDIR)
      \<and> \<not> IsNotExist (PathError ''stat'' ''/etc/hosts/x'' ENOTDIR)"
    by (simp add: os_Stat_def locate_def start_def rooted_def fs_of_def)
  have e: "Error (PathError ''stat'' ''/etc/hosts/x'' ENOTDIR) = ''stat /etc/hosts/x: not a directory''"
    by simp
  note t = FileExists_results [of ?w id]
  from t [of "''/etc/hosts''", THEN conjunct1, rule_format, OF s1]
    t [of "''/etc/motd''", THEN conjunct2, THEN conjunct1, rule_format, OF s2]
    t [of "''/etc/hosts/x''", THEN conjunct2, THEN conjunct2, rule_format, OF s3] e
  show ?thesis
    by simp
qed

text \<open>
  C8. The resolver is a function of the base path and the raw path, and resolving a
  resolved path changes nothing. Whenever the raw path or the base path is absolute, the
  result is an absolute, normalised path; otherwise no resolution is possible and the
  input is returned unchanged. There is no failure value.
\<close>

theorem resolve_idempotent:
  "resolve base (resolve base p) = resolve base p
   \<and> (rooted p \<or> rooted base \<longrightarrow>
        rooted (resolve base p) \<and> Clean (resolve base p) = resolve base p)
   \<and> (\<not> rooted p \<and> \<not> rooted base \<longrightarrow> resolve base p = p)"
proof -
  have a: "rooted (resolve base p) \<and> Clean (resolve base p) = resolve base p"
    if "rooted p \<or> rooted base"
    using that rooted_Join [of base p]
    by (auto simp: resolve_def rooted_Clean Clean_Clean_rooted)
  have b: "resolve base p = p" if "\<not> rooted p \<and> \<not> rooted base"
    using that by (simp add: resolve_def)
  have "resolve base (resolve base p) = resolve base p"
  proof (cases "rooted p \<or> rooted base")
    case True
    from a [OF True] show ?thesis
      by (simp add: resolve_def [of base "resolve base p"])
  next
    case False
    with b show ?thesis by simp
  qed
  with a b show ?thesis by blast
qed

theorem resolve_idempotent_witness:
  "resolve ''/opt/app'' ''data/../rules/./a.json'' = ''/opt/app/rules/a.json''
   \<and> resolve ''/opt/app'' (resolve ''/opt/app'' ''data/../rules/./a.json'')
       = resolve ''/opt/app'' ''data/../rules/./a.json''
   \<and> rooted (resolve ''/opt/app'' ''data/../rules/./a.json'')
   \<and> resolve ''app'' ''data/x'' = ''data/x''"
proof -
  have v: "resolve ''/opt/app'' ''data/../rules/./a.json'' = ''/opt/app/rules/a.json''"
    by (simp add: resolve_def rooted_def Join.simps Clean_def clean_key_def)
  have h: "rooted ''data/../rules/./a.json'' \<or> rooted ''/opt/app''"
    and n: "\<not> rooted ''data/x'' \<and> \<not> rooted ''app''"
    by (simp_all add: rooted_def)
  from resolve_idempotent [of "''/opt/app''" "''data/../rules/./a.json''"]
    resolve_idempotent [of "''app''" "''data/x''"] h n v
  show ?thesis
    by simp
qed

text \<open>
  C9. With a mode that is neither Text nor Binary, \<open>Writefile\<close> succeeds exactly when
  creating the parent directory and writing no bytes succeed; it then returns
  \<^verbatim>\<open>Success\<close> and the file is empty, and a failure carries the message of the
  file-system error. \<open>Readfile\<close> returns success with the empty string whatever the file
  holds, and the error of reading when the file cannot be read. The mode is never
  reported.
\<close>

theorem unknown_Mode_is_not_an_error:
  assumes "Mode options \<noteq> Text" and "Mode options \<noteq> Binary"
  shows "(\<forall>w' r. Writefile GetPath w path content options = (w', r) \<longrightarrow>
            Flag r = (snd (os_MkdirAll w (Dir (GetPath path))) = None
               \<and> snd (os_WriteFile (fst (os_MkdirAll w (Dir (GetPath path)))) (GetPath path) []) = None)
            \<and> (Flag r \<longrightarrow> Data r = ''Success'' \<and> os_ReadFile w' (GetPath path) = Inr [])
            \<and> (\<not> Flag r \<longrightarrow> (\<exists>e. Data r = Error e)))
    \<and> (\<forall>b. os_ReadFile w (GetPath path) = Inr b \<longrightarrow>
            Readfile GetPath w path options = (w, \<lparr>Flag = True, Data = []\<rparr>))
    \<and> (\<forall>e. os_ReadFile w (GetPath path) = Inl e \<longrightarrow>
            Readfile GetPath w path options = (w, \<lparr>Flag = False, Data = Error e\<rparr>))"
proof (intro conjI allI impI)
  fix w' r
  assume W: "Writefile GetPath w path content options = (w', r)"
  obtain w1 e1 where m: "os_MkdirAll w (Dir (GetPath path)) = (w1, e1)"
    by (cases "os_MkdirAll w (Dir (GetPath path))")
  obtain w2 e2 where wr: "os_WriteFile w1 (GetPath path) [] = (w2, e2)"
    by (cases "os_WriteFile w1 (GetPath path) []")
  have flag: "Flag r = (e1 = None \<and> e2 = None)"
    and ok: "Flag r \<Longrightarrow> w' = w2 \<and> Data r = ''Success''"
    and bad: "\<not> Flag r \<Longrightarrow> \<exists>e. Data r = Error e"
    using W m wr assms by (auto simp: Writefile_def split: option.splits)
  show "Flag r = (snd (os_MkdirAll w (Dir (GetPath path))) = None
          \<and> snd (os_WriteFile (fst (os_MkdirAll w (Dir (GetPath path)))) (GetPath path) []) = None)"
    using flag m wr by simp
  show "\<exists>e. Data r = Error e" if "\<not> Flag r"
    using that by (rule bad)
  show "Data r = ''Success''" if "Flag r"
    using ok [OF that] by simp
  show "os_ReadFile w' (GetPath path) = Inr []" if "Flag r"
    using ok [OF that] flag that wr os_ReadFile_after_WriteFile [of w1 "GetPath path" "[]" w2]
    by simp
next
  fix b
  assume "os_ReadFile w (GetPath path) = Inr b"
  then show "Readfile GetPath w path options = (w, \<lparr>Flag = True, Data = []\<rparr>)"
    using assms by (simp add: Readfile_def)
next
  fix e
  assume "os_ReadFile w (GetPath path) = Inl e"
  then show "Readfile GetPath w path options = (w, \<lparr>Flag = False, Data = Error e\<rparr>)"
    by (simp add: Readfile_def)
qed

theorem unknown_Mode_is_not_an_error_witness:
  "Mode \<lparr>Mode = ''Base64''\<rparr> \<noteq> Text \<and> Mode \<lparr>Mode = ''Base64''\<rparr> \<noteq> Binary
   \<and> Flag (snd (Writefile id (fs_of [([], Directory)]) ''/notes.txt'' ''hello'' \<lparr>Mode = ''Base64''\<rparr>))
   \<and> os_ReadFile
        (fst (Writefile id (fs_of [([], Directory)]) ''/notes.txt'' ''hello'' \<lparr>Mode = ''Base64''\<rparr>))
        ''/notes.txt'' = Inr []
   \<and> os_ReadFile (fs_of [([''notes.txt''], RegularFile ''hello''), ([], Directory)]) ''/notes.txt''
        = Inr ''hello''
   \<and> Readfile id (fs_of [([''notes.txt''], RegularFile ''hello''), ([], Directory)]) ''/notes.txt''
        \<lparr>Mode = ''Base64''\<rparr>
        = (fs_of [([''notes.txt''], RegularFile ''hello''), ([], Directory)],
           \<lparr>Flag = True, Data = []\<rparr>)"
proof -
  let ?o = "\<lparr>Mode = ''Base64''\<rparr>"
  let ?w = "fs_of [([], Directory)]"
  let ?v = "fs_of [([''notes.txt''], RegularFile ''hello''), ([], Directory)]"
  let ?W = "Writefile id ?w ''/notes.txt'' ''hello'' ?o"
  have h: "Mode ?o \<noteq> Text" "Mode ?o \<noteq> Binary"
    by (simp_all add: Text_def Binary_def)
  have p: "Dir ''/notes.txt'' = ''/''"
    by (simp add: Dir_def Clean_def clean_key_def rooted_def)
  have m: "os_MkdirAll ?w ''/'' = (?w, None)"
    by (simp add: os_MkdirAll_def start_def rooted_def fs_of_def)
  have wr: "snd (os_WriteFile ?w ''/notes.txt'' []) = None"
    by (simp add: os_WriteFile_def os_Create_def locate_def start_def rooted_def fs_of_def)
  have rd: "os_ReadFile ?v ''/notes.txt'' = Inr ''hello''"
    by (simp add: os_ReadFile_def os_Open_def read_all_def locate_def start_def rooted_def fs_of_def)
  have a: "Flag (snd ?W) \<and> os_ReadFile (fst ?W) ''/notes.txt'' = Inr []"
    using unknown_Mode_is_not_an_error [OF h, of id ?w "''/notes.txt''" "''hello''",
        THEN conjunct1, rule_format, of "fst ?W" "snd ?W"] p m wr
    by simp
  have b: "Readfile id ?v ''/notes.txt'' ?o = (?v, \<lparr>Flag = True, Data = []\<rparr>)"
    using unknown_Mode_is_not_an_error [OF h, of id ?v "''/notes.txt''" "''hello''",
        THEN conjunct2, THEN conjunct1, rule_format, of "''hello''"] rd
    by simp
  from a b h rd show ?thesis
    by simp
qed

text \<open>
  C10. Let the resolved path be an absolute, normalised path. When it names an existing
  file or directory other than the root, \<open>Removefile\<close> returns \<^verbatim>\<open>Success\<close> and removes
  the node together with every node below it, and nothing else. When the path does not
  exist, \<open>Removefile\<close> returns \<^verbatim>\<open>Success\<close> as well and leaves the file system as it is.
\<close>

theorem Removefile_recursive:
  assumes "rooted (GetPath path)" and "Clean (GetPath path) = GetPath path"
  shows "(\<forall>k. locate w (GetPath path) = Inr k \<and> nodes w k \<noteq> None \<and> k \<noteq> [] \<longrightarrow>
            Removefile GetPath w path = (remove_tree w k, \<lparr>Flag = True, Data = ''Success''\<rparr>)
            \<and> (\<forall>k'. nodes (remove_tree w k) k' = (if prefix k k' then None else nodes w k')))
    \<and> (\<forall>err. os_Stat w (GetPath path) = Inl err \<and> IsNotExist err \<longrightarrow>
            Removefile GetPath w path = (w, \<lparr>Flag = True, Data = ''Success''\<rparr>))"
proof (intro conjI allI impI)
  have ne: "GetPath path \<noteq> []"
    using assms(1) by (auto simp: rooted_def)
  have nd: "\<not> endsWithDot (GetPath path)"
    by (rule canonical_not_endsWithDot [OF assms])
  {
    fix k
    assume a: "locate w (GetPath path) = Inr k \<and> nodes w k \<noteq> None \<and> k \<noteq> []"
    show "Removefile GetPath w path = (remove_tree w k, \<lparr>Flag = True, Data = ''Success''\<rparr>)"
      using a ne nd by (auto simp: Removefile_def os_RemoveAll_def)
    fix k'
    show "nodes (remove_tree w k) k' = (if prefix k k' then None else nodes w k')"
      by (simp add: remove_tree_def)
  }
  fix err
  assume s: "os_Stat w (GetPath path) = Inl err \<and> IsNotExist err"
  then have "locate w (GetPath path) = Inl ENOENT
      \<or> (\<exists>k. locate w (GetPath path) = Inr k \<and> nodes w k = None)"
    by (cases err) (auto simp: os_Stat_def split: sum.splits option.splits)
  then show "Removefile GetPath w path = (w, \<lparr>Flag = True, Data = ''Success''\<rparr>)"
    using ne nd by (auto simp: Removefile_def os_RemoveAll_def)
qed

theorem Removefile_recursive_witness:
  "rooted (id ''/tmp/work'') \<and> Clean (id ''/tmp/work'') = id ''/tmp/work''
   \<and> locate (fs_of [([], Directory), ([''tmp''], Directory), ([''tmp'', ''work''], Directory),
                     ([''tmp'', ''work'', ''a.txt''], RegularFile ''x''),
                     ([''tmp'', ''work'', ''sub''], Directory),
                     ([''tmp'', ''work'', ''sub'', ''b.txt''], RegularFile ''y'')])
        (id ''/tmp/work'') = Inr [''tmp'', ''work'']
   \<and> snd (Removefile id
        (fs_of [([], Directory), ([''tmp''], Directory), ([''tmp'', ''work''], Directory),
                ([''tmp'', ''work'', ''a.txt''], RegularFile ''x''),
                ([''tmp'', ''work'', ''sub''], Directory),
                ([''tmp'', ''work'', ''sub'', ''b.txt''], RegularFile ''y'')]) ''/tmp/work'')
       = \<lparr>Flag = True, Data = ''Success''\<rparr>
   \<and> map (nodes (fst (Removefile id
        (fs_of [([], Directory), ([''tmp''], Directory), ([''tmp'', ''work''], Directory),
                ([''tmp'', ''work'', ''a.txt''], RegularFile ''x''),
                ([''tmp'', ''work'', ''sub''], Directory),
                ([''tmp'', ''work'', ''sub'', ''b.txt''], RegularFile ''y'')]) ''/tmp/work'')))
        [[''tmp''], [''tmp'', ''work''], [''tmp'', ''work'', ''a.txt''],
         [''tmp'', ''work'', ''sub''], [''tmp'', ''work'', ''sub'', ''b.txt'']]
       = [Some Directory, None, None, None, None]
   \<and> Removefile id (fs_of [([], Directory), ([''tmp''], Directory)]) ''/tmp/work''
       = (fs_of [([], Directory), ([''tmp''], Directory)], \<lparr>Flag = True, Data = ''Success''\<rparr>)"
proof -
  let ?w = "fs_of [([], Directory), ([''tmp''], Directory), ([''tmp'', ''work''], Directory),
                   ([''tmp'', ''work'', ''a.txt''], RegularFile ''x''),
                   ([''tmp'', ''work'', ''sub''], Directory),
                   ([''tmp'', ''work'', ''sub'', ''b.txt''], RegularFile ''y'')]"
  let ?v = "fs_of [([], Directory), ([''tmp''], Directory)]"
  have h1: "rooted (id ''/tmp/work'')"
    by (simp add: rooted_def)
  have h2: "Clean (id ''/tmp/work'') = id ''/tmp/work''"
    by (simp add: Clean_def clean_key_def rooted_def)
  have l: "locate ?w (id ''/tmp/work'') = Inr [''tmp'', ''work'']"
    by (simp add: locate_def start_def rooted_def fs_of_def)
  have x: "nodes ?w [''tmp'', ''work''] \<noteq> None \<and> [''tmp'', ''work''] \<noteq> []"
    by (simp add: fs_of_def)
  have n: "map (nodes ?w) [[''tmp'']] = [Some Directory]"
    by (simp add: fs_of_def)
  have s: "os_Stat ?v (id ''/tmp/work'') = Inl (PathError ''stat'' ''/tmp/work'' ENOENT)
      \<and> IsNotExist (PathError ''stat'' ''/tmp/work'' ENOENT)"
    by (simp add: os_Stat_def locate_def start_def rooted_def fs_of_def)
  note t = Removefile_recursive [of id "''/tmp/work''", OF h1 h2]
  from t [of ?w, THEN conjunct1, rule_format, of "[''tmp'', ''work'']"] l x
  have a: "Removefile id ?w ''/tmp/work''
             = (remove_tree ?w [''tmp'', ''work''], \<lparr>Flag = True, Data = ''Success''\<rparr>)"
    and b: "\<And>k'. nodes (remove_tree ?w [''tmp'', ''work'']) k'
             = (if prefix [''tmp'', ''work''] k' then None else nodes ?w k')"
    by simp_all
  from t [of ?v, THEN conjunct2, rule_format, OF s]
  have c: "Removefile id ?v ''/tmp/work'' = (?v, \<lparr>Flag = True, Data = ''Success''\<rparr>)" .
  show ?thesis
    using h1 h2 l n c by (simp add: a b)
qed

end
